theory Spec2Isabelle
  imports Main "HOL-Library.Word" "HOL-Library.Sublist"
begin

unbundle bit_operations_syntax

section \<open>The event dispatch loop (\<open>listenForEvents\<close>)\<close>

text \<open>
  \<open>fsnotify.Event\<close> is a path and a bit set of operations (a \<open>uint32\<close>).
  The \<open>event\<close> struct of \<open>watch.go\<close> embeds a \<open>time.Time\<close> next to it.
  A clock reading is a natural number.
\<close>

type_synonym time = nat

record fsevent =
  Name :: string
  Op :: "32 word"

record event =
  Time :: time
  Event :: fsevent

text \<open>
  One iteration of the \<open>for { select { ... } }\<close> loop receives one item. What the
  \<open>select\<close> delivers, and in which order the two channels are served, is the choice of
  the Go runtime and of the subscription: the loop is modelled over the list of what its
  successive \<open>select\<close> statements receive.
  \<^item> \<open>RecvEvent ev\<close>: \<open>ev, ok := <-w.Events\<close> with \<open>ok\<close> true;
  \<^item> \<open>EventsClosed\<close>: the same receive with \<open>ok\<close> false;
  \<^item> \<open>RecvError e\<close>: \<open>err, ok := <-w.Errors\<close> with \<open>ok\<close> true, \<open>None\<close> being a nil error;
  \<^item> \<open>ErrorsClosed\<close>: the same receive with \<open>ok\<close> false.
\<close>

datatype recv =
    RecvEvent fsevent
  | EventsClosed
  | RecvError "string option"
  | ErrorsClosed

text \<open>
  What the loop does to the outside: a send on \<open>cmdCh\<close>, \<open>close(cmdCh)\<close>, and the two
  log lines. A send blocks until the consumer takes the item; the model records the send
  and goes on, so it describes the runs in which the consumer keeps receiving.
\<close>

datatype action =
    Send event
  | CloseCmdCh
  | LogUnignored fsevent
  | LogWatchError string

text \<open>
  \<open>Returned\<close>: the function executed a \<open>return\<close>. \<open>Waiting\<close>: every item was handled
  and the loop is back in \<open>select\<close>, waiting for the next one.
\<close>

datatype status = Returned | Waiting

text \<open>
  \<open>verbose\<close> is the value of \<open>*verbose\<close>; \<open>ignorer\<close> is \<open>ignorer.IsIgnored\<close>;
  \<open>clock k\<close> is what the \<open>k\<close>-th call of \<open>time.Now()\<close> returns and \<open>n\<close> counts the
  calls made so far.
\<close>

fun listenForEvents ::
  "bool \<Rightarrow> (string \<Rightarrow> bool) \<Rightarrow> (nat \<Rightarrow> time) \<Rightarrow> nat \<Rightarrow> recv list \<Rightarrow> action list \<times> status"
where
  "listenForEvents verbose ignorer clock n [] = ([], Waiting)"
| "listenForEvents verbose ignorer clock n (RecvEvent ev # rs) =
     (if ignorer (Name ev) then listenForEvents verbose ignorer clock n rs
      else
        (let r = listenForEvents verbose ignorer clock (Suc n) rs
         in ((if verbose then [LogUnignored ev] else [])
               @ Send \<lparr>Time = clock n, Event = ev\<rparr> # fst r, snd r)))"
| "listenForEvents verbose ignorer clock n (EventsClosed # rs) = ([], Returned)"
| "listenForEvents verbose ignorer clock n (RecvError None # rs) = ([CloseCmdCh], Returned)"
| "listenForEvents verbose ignorer clock n (RecvError (Some e) # rs) =
     (let r = listenForEvents verbose ignorer clock n rs
      in (LogWatchError e # fst r, snd r))"
| "listenForEvents verbose ignorer clock n (ErrorsClosed # rs) = ([CloseCmdCh], Returned)"

text \<open>The items sent on \<open>cmdCh\<close>, in the order of the sends.\<close>

fun sends :: "action list \<Rightarrow> event list" where
  "sends [] = []"
| "sends (Send e # as) = e # sends as"
| "sends (a # as) = sends as"

text \<open>An item that makes the loop return.\<close>

fun stops :: "recv \<Rightarrow> bool" where
  "stops EventsClosed = True"
| "stops (RecvError None) = True"
| "stops ErrorsClosed = True"
| "stops r = False"

text \<open>The raw events the loop receives before it returns.\<close>

fun received :: "recv list \<Rightarrow> fsevent list" where
  "received [] = []"
| "received (RecvEvent ev # rs) = ev # received rs"
| "received (RecvError (Some e) # rs) = received rs"
| "received (r # rs) = []"

text \<open>Forwarding: the \<open>k\<close>-th forwarded event carries the \<open>k\<close>-th clock reading.\<close>

fun stamp :: "(nat \<Rightarrow> time) \<Rightarrow> nat \<Rightarrow> fsevent list \<Rightarrow> event list" where
  "stamp clock n [] = []"
| "stamp clock n (ev # evs) = \<lparr>Time = clock n, Event = ev\<rparr> # stamp clock (Suc n) evs"

section \<open>Library functions the watcher calls\<close>

subsection \<open>\<open>path/filepath\<close> on Unix\<close>

text \<open>
  Go strings are byte sequences and so are \<open>string\<close>s here. The separator is \<open>/\<close> and
  there are no volume names. \<open>filepath.Clean\<close> is the loop of the Go library, byte by
  byte: \<open>out\<close> is the buffer written so far (its length is \<open>out.w\<close>), \<open>dotdot\<close> the index
  below which a \<open>..\<close> element cannot backtrack.
\<close>

definition IsPathSeparator :: "char \<Rightarrow> bool" where
  "IsPathSeparator c = (c = CHR ''/'')"

text \<open>
  The inner loop of a \<open>..\<close> element, started after \<open>out.w--\<close>:
  \<open>for out.w > dotdot && !os.IsPathSeparator(out.index(out.w)) { out.w-- }\<close>.
\<close>

fun backtrack :: "nat \<Rightarrow> string \<Rightarrow> nat \<Rightarrow> nat" where
  "backtrack dotdot buf 0 = 0"
| "backtrack dotdot buf (Suc w) =
     (if Suc w > dotdot \<and> \<not> IsPathSeparator (buf ! Suc w) then backtrack dotdot buf w else Suc w)"

function clean_loop :: "bool \<Rightarrow> string \<Rightarrow> string \<Rightarrow> nat \<Rightarrow> string" where
  "clean_loop rooted [] out dotdot = out"
| "clean_loop rooted (c # rest) out dotdot =
     (if IsPathSeparator c then clean_loop rooted rest out dotdot
      else if c = CHR ''.'' \<and> (rest = [] \<or> IsPathSeparator (hd rest)) then
        clean_loop rooted rest out dotdot
      else if c = CHR ''.'' \<and> hd rest = CHR ''.'' \<and> (tl rest = [] \<or> IsPathSeparator (hd (tl rest))) then
        (if length out > dotdot then
           clean_loop rooted (tl rest) (take (backtrack dotdot out (length out - 1)) out) dotdot
         else if \<not> rooted then
           (let out' = (if length out > 0 then out @ ''/'' else out) @ ''..''
            in clean_loop rooted (tl rest) out' (length out'))
         else clean_loop rooted (tl rest) out dotdot)
      else
        (let out' = (if rooted \<and> length out \<noteq> 1 \<or> \<not> rooted \<and> length out \<noteq> 0
                     then out @ ''/'' else out)
         in clean_loop rooted (dropWhile (\<lambda>x. \<not> IsPathSeparator x) rest)
              (out' @ c # takeWhile (\<lambda>x. \<not> IsPathSeparator x) rest) dotdot))"
  by pat_completeness auto
termination
  by (relation "measure (\<lambda>(rooted, path, out, dotdot). length path)")
     (auto simp: less_Suc_eq_le length_dropWhile_le intro: le_trans [OF length_dropWhile_le])

definition filepath_Clean :: "string \<Rightarrow> string" where
  "filepath_Clean path =
     (if path = [] then ''.''
      else
        (let rooted = IsPathSeparator (hd path);
             out = (if rooted then clean_loop True (tl path) ''/'' 1
                    else clean_loop False path [] 0)
         in if out = [] then ''.'' else out))"

text \<open>
  \<open>filepath.Dir\<close> cuts the path after its last separator and cleans the result;
  \<open>filepath.Base\<close> strips trailing separators and returns the last element.
\<close>

definition filepath_Dir :: "string \<Rightarrow> string" where
  "filepath_Dir path =
     filepath_Clean (rev (dropWhile (\<lambda>x. \<not> IsPathSeparator x) (rev path)))"

definition filepath_Base :: "string \<Rightarrow> string" where
  "filepath_Base path =
     (if path = [] then ''.''
      else
        (let stripped = rev (dropWhile IsPathSeparator (rev path));
             elem = rev (takeWhile (\<lambda>x. \<not> IsPathSeparator x) (rev stripped))
         in if elem = [] then ''/'' else elem))"

definition filepath_IsAbs :: "string \<Rightarrow> bool" where
  "filepath_IsAbs path = prefix ''/'' path"

fun strings_Join :: "string list \<Rightarrow> string \<Rightarrow> string" where
  "strings_Join [] sep = []"
| "strings_Join [e] sep = e"
| "strings_Join (e # es) sep = e @ sep @ strings_Join es sep"

fun filepath_Join :: "string list \<Rightarrow> string" where
  "filepath_Join [] = []"
| "filepath_Join (e # es) =
     (if e \<noteq> [] then filepath_Clean (strings_Join (e # es) ''/'') else filepath_Join es)"

text \<open>
  \<open>filepath.Abs\<close> fails only when the path is relative and \<open>os.Getwd\<close> fails; \<open>wd\<close>
  is the result of \<open>os.Getwd\<close>, \<open>None\<close> when it fails.
\<close>

definition filepath_Abs :: "string option \<Rightarrow> string \<Rightarrow> string option" where
  "filepath_Abs wd path =
     (if filepath_IsAbs path then Some (filepath_Clean path)
      else (case wd of None \<Rightarrow> None | Some d \<Rightarrow> Some (filepath_Join [d, path])))"

subsection \<open>\<open>strings\<close>\<close>

definition strings_HasPrefix :: "string \<Rightarrow> string \<Rightarrow> bool" where
  "strings_HasPrefix s pre = prefix pre s"

definition strings_HasSuffix :: "string \<Rightarrow> string \<Rightarrow> bool" where
  "strings_HasSuffix s suf = suffix suf s"

text \<open>
  \<open>strings.TrimSpace\<close> removes the leading and trailing runes that \<open>unicode.IsSpace\<close>
  accepts. On bytes: it removes the leading and the trailing UTF-8 encodings of the
  White_Space code points (U+0009 to U+000D, U+0020, U+0085, U+00A0, U+1680, U+2000 to
  U+200A, U+2028, U+2029, U+202F, U+205F, U+3000). The fuel of the two loops is the length
  of the string, which bounds the number of runes to remove.
\<close>

definition unicode_spaces :: "string list" where
  "unicode_spaces =
     [[CHR 0x09], [CHR 0x0A], [CHR 0x0B], [CHR 0x0C], [CHR 0x0D], [CHR 0x20],
      [CHR 0xC2, CHR 0x85], [CHR 0xC2, CHR 0xA0],
      [CHR 0xE1, CHR 0x9A, CHR 0x80],
      [CHR 0xE2, CHR 0x80, CHR 0x80], [CHR 0xE2, CHR 0x80, CHR 0x81],
      [CHR 0xE2, CHR 0x80, CHR 0x82], [CHR 0xE2, CHR 0x80, CHR 0x83],
      [CHR 0xE2, CHR 0x80, CHR 0x84], [CHR 0xE2, CHR 0x80, CHR 0x85],
      [CHR 0xE2, CHR 0x80, CHR 0x86], [CHR 0xE2, CHR 0x80, CHR 0x87],
      [CHR 0xE2, CHR 0x80, CHR 0x88], [CHR 0xE2, CHR 0x80, CHR 0x89],
      [CHR 0xE2, CHR 0x80, CHR 0x8A],
      [CHR 0xE2, CHR 0x80, CHR 0xA8], [CHR 0xE2, CHR 0x80, CHR 0xA9],
      [CHR 0xE2, CHR 0x80, CHR 0xAF],
      [CHR 0xE2, CHR 0x81, CHR 0x9F],
      [CHR 0xE3, CHR 0x80, CHR 0x80]]"

text \<open>
  The encoding of a space that \<open>s\<close> starts with (ends with), empty when there is none.
\<close>

definition leading_space :: "string \<Rightarrow> string" where
  "leading_space s = (case find (\<lambda>e. prefix e s) unicode_spaces of None \<Rightarrow> [] | Some e \<Rightarrow> e)"

definition trailing_space :: "string \<Rightarrow> string" where
  "trailing_space s = (case find (\<lambda>e. suffix e s) unicode_spaces of None \<Rightarrow> [] | Some e \<Rightarrow> e)"

fun trim_left :: "nat \<Rightarrow> string \<Rightarrow> string" where
  "trim_left 0 s = s"
| "trim_left (Suc k) s =
     (if leading_space s = [] then s else trim_left k (drop (length (leading_space s)) s))"

fun trim_right :: "nat \<Rightarrow> string \<Rightarrow> string" where
  "trim_right 0 s = s"
| "trim_right (Suc k) s =
     (if trailing_space s = [] then s
      else trim_right k (take (length s - length (trailing_space s)) s))"

definition strings_TrimSpace :: "string \<Rightarrow> string" where
  "strings_TrimSpace s = (let l = trim_left (length s) s in trim_right (length l) l)"

subsection \<open>\<open>crypto/sha256\<close>\<close>

text \<open>
  SHA-256 as in FIPS 180-4, on byte lists: padding, the message schedule of each 64-byte
  block and the 64 rounds of the compression function. \<open>h.Sum(nil)\<close> of a hash that was
  fed the bytes \<open>msg\<close> is \<open>sha256 msg\<close>.
\<close>

type_synonym byte = "8 word"

text \<open>
  The constants of the standard are defined by what they are: the first 32 bits of the
  fractional parts of the cube roots (round constants) and of the square roots (initial
  hash value) of the first primes.
\<close>

definition first_primes :: "nat \<Rightarrow> nat list" where
  "first_primes n = take n (filter (\<lambda>p. list_all (\<lambda>d. p mod d \<noteq> 0) [2..<p]) [2..<312])"

fun root_search :: "nat \<Rightarrow> nat \<Rightarrow> nat \<Rightarrow> nat \<Rightarrow> nat" where
  "root_search k n 0 r = r"
| "root_search k n (Suc b) r =
     root_search k n b (if (r + 2 ^ b) ^ k \<le> n then r + 2 ^ b else r)"

definition frac_root_bits :: "nat \<Rightarrow> nat \<Rightarrow> 32 word" where
  "frac_root_bits k p = of_nat (root_search k (p * 2 ^ (32 * k)) 48 0)"

definition sha256_K :: "32 word list" where
  "sha256_K = map (frac_root_bits 3) (first_primes 64)"

definition sha256_init :: "32 word list" where
  "sha256_init = map (frac_root_bits 2) (first_primes 8)"

definition rotr :: "nat \<Rightarrow> 32 word \<Rightarrow> 32 word" where
  "rotr n x = drop_bit n x OR push_bit (32 - n) x"

definition be32 :: "byte list \<Rightarrow> 32 word" where
  "be32 bs = foldl (\<lambda>w b. push_bit 8 w OR ucast b) 0 bs"

definition be_bytes :: "nat \<Rightarrow> nat \<Rightarrow> byte list" where
  "be_bytes k n = map (\<lambda>i. of_nat (n div 256 ^ (k - 1 - i))) [0..<k]"

definition sha256_pad :: "byte list \<Rightarrow> byte list" where
  "sha256_pad msg =
     msg @ [0x80] @ replicate ((119 - length msg mod 64) mod 64) 0 @ be_bytes 8 (8 * length msg)"

fun chunks :: "nat \<Rightarrow> nat \<Rightarrow> 'a list \<Rightarrow> 'a list list" where
  "chunks 0 k xs = []"
| "chunks (Suc n) k xs = take k xs # chunks n k (drop k xs)"

fun schedule :: "nat \<Rightarrow> 32 word list \<Rightarrow> 32 word list" where
  "schedule 0 w = w"
| "schedule (Suc n) w =
     (let t = length w;
          w15 = w ! (t - 15); w2 = w ! (t - 2);
          s0 = rotr 7 w15 XOR rotr 18 w15 XOR drop_bit 3 w15;
          s1 = rotr 17 w2 XOR rotr 19 w2 XOR drop_bit 10 w2
      in schedule n (w @ [w ! (t - 16) + s0 + w ! (t - 7) + s1]))"

definition sha256_round :: "32 word list \<Rightarrow> 32 word \<times> 32 word \<Rightarrow> 32 word list" where
  "sha256_round s kw =
     (let a = s ! 0; b = s ! 1; c = s ! 2; d = s ! 3; e = s ! 4; f = s ! 5; g = s ! 6; h = s ! 7;
          S1 = rotr 6 e XOR rotr 11 e XOR rotr 25 e;
          ch = (e AND f) XOR (NOT e AND g);
          t1 = h + S1 + ch + fst kw + snd kw;
          S0 = rotr 2 a XOR rotr 13 a XOR rotr 22 a;
          maj = (a AND b) XOR (a AND c) XOR (b AND c);
          t2 = S0 + maj
      in [t1 + t2, a, b, c, d + t1, e, f, g])"

definition sha256_block :: "32 word list \<Rightarrow> byte list \<Rightarrow> 32 word list" where
  "sha256_block hs blk =
     (let w = schedule 48 (map be32 (chunks 16 4 blk))
      in map2 (+) hs (foldl sha256_round hs (zip sha256_K w)))"

definition sha256 :: "byte list \<Rightarrow> byte list" where
  "sha256 msg =
     (let p = sha256_pad msg
      in concat (map (\<lambda>w. be_bytes 4 (unat w))
           (foldl sha256_block sha256_init (chunks (length p div 64) 64 p))))"


section \<open>The digest engine (\<open>digest\<close>)\<close>

text \<open>
  An error value is its message. What \<open>digest\<close> sees of a path:
  \<^item> \<open>OpenFails e\<close>: \<open>os.Open\<close> returns the error \<open>e\<close>;
  \<^item> \<open>StatFails e\<close>: the file opens and \<open>f.Stat()\<close> returns the error \<open>e\<close>;
  \<^item> \<open>Directory\<close>: \<open>stat.IsDir()\<close> is true;
  \<^item> \<open>Regular bytes term\<close>: anything else. Reading the file delivers \<open>bytes\<close> and
    then ends, with end of file (\<open>None\<close>) or with a read error (\<open>Some e\<close>).
\<close>

type_synonym err = string

datatype fnode =
    OpenFails err
  | StatFails err
  | Directory
  | Regular "byte list" "err option"

type_synonym filesystem = "string \<Rightarrow> fnode"

definition maxHashedFileSize :: nat where
  "maxHashedFileSize = 20 * 1024 * 1024"

text \<open>
  \<open>io.Copy(h, io.LimitReader(br, n))\<close> on a reader that delivers \<open>bytes\<close> and then
  \<open>term\<close>: the bytes written to \<open>h\<close>, the bytes left unread, and the error of the copy.
  Once \<open>n\<close> bytes are read the limited reader reports end of file by itself; before that,
  the end of the underlying reader decides.
\<close>

definition copy_limited ::
  "nat \<Rightarrow> byte list \<Rightarrow> err option \<Rightarrow> byte list \<times> byte list \<times> err option"
where
  "copy_limited n bytes term =
     (if n \<le> length bytes then (take n bytes, drop n bytes, None)
      else (bytes, [], term))"

text \<open>
  The result is the pair of the Go function: the fingerprint (\<open>None\<close> is the nil slice)
  and the error (\<open>None\<close> is the nil error). \<open>br.Peek(1)\<close> returns the next unread byte if
  there is one, and its error is dropped.
\<close>

type_synonym fingerprint = "byte list option"

definition digest :: "filesystem \<Rightarrow> string \<Rightarrow> fingerprint \<times> err option" where
  "digest fs path =
     (case fs path of
        OpenFails e \<Rightarrow> (None, Some e)
      | StatFails e \<Rightarrow> (None, Some e)
      | Directory \<Rightarrow> (None, None)
      | Regular bytes term \<Rightarrow>
          (case copy_limited maxHashedFileSize bytes term of
             (h, unread, Some e) \<Rightarrow> (None, Some e)
           | (h, unread, None) \<Rightarrow>
               (let b = take 1 unread
                in if length b > 0 then (None, None) else (Some (sha256 h), None))))"

section \<open>The user ignorer\<close>

text \<open>
  \<open>ignored\<close> is a \<open>map[string]bool\<close> that only ever receives the value \<open>true\<close>: a set.
\<close>

record userIgnorer =
  ignored :: "string set"
  ignoredDirs :: "string list"

fun createUserIgnorer_loop ::
  "string option \<Rightarrow> string list \<Rightarrow> userIgnorer \<Rightarrow> userIgnorer option"
where
  "createUserIgnorer_loop wd [] u = Some u"
| "createUserIgnorer_loop wd (x # xs) u =
     (let i = strings_TrimSpace x
      in if length i = 0 then createUserIgnorer_loop wd xs u
         else
           (case filepath_Abs wd i of
              None \<Rightarrow> None
            | Some path \<Rightarrow>
                (let dirPath = (if \<not> strings_HasSuffix path ''/'' then path @ ''/'' else path)
                 in createUserIgnorer_loop wd xs
                      \<lparr>ignored = insert path (ignored u),
                       ignoredDirs = ignoredDirs u @ [dirPath]\<rparr>)))"

text \<open>\<open>None\<close> is the error return of \<open>createUserIgnorer\<close> (it has one error only).\<close>

definition createUserIgnorer :: "string option \<Rightarrow> string list \<Rightarrow> userIgnorer option" where
  "createUserIgnorer wd ignoredPaths =
     createUserIgnorer_loop wd ignoredPaths \<lparr>ignored = {}, ignoredDirs = []\<rparr>"

text \<open>
  Modelled from the spec: the method \<open>IsIgnored\<close> of \<open>userIgnorer\<close> is not defined in
  \<open>watch.go\<close>. The specification says: ``\<open>IsIgnored(path)\<close> returns true if the path's
  resolved absolute form is in the exact-match set, or starts with any recorded prefix.''
  It does not say what happens when the path cannot be resolved; the model answers false
  then.
\<close>

definition userIgnorer_IsIgnored :: "string option \<Rightarrow> userIgnorer \<Rightarrow> string \<Rightarrow> bool" where
  "userIgnorer_IsIgnored wd u path =
     (case filepath_Abs wd path of
        None \<Rightarrow> False
      | Some p \<Rightarrow> p \<in> ignored u \<or> list_ex (\<lambda>d. strings_HasPrefix p d) (ignoredDirs u))"

section \<open>The watch set builder (\<open>watch\<close>)\<close>

text \<open>
  The \<open>fsnotify\<close> watcher, as far as \<open>watch\<close> uses it: the paths registered by
  successful calls of \<open>w.Add\<close>, in the order of the calls, and whether \<open>w.Close()\<close> was
  called.
\<close>

record fswatcher =
  added :: "string list"
  isClosed :: bool

text \<open>
  What the function reads from outside:
  \<^item> \<open>getwd\<close>: the result of \<open>os.Getwd\<close>, \<open>None\<close> when it fails;
  \<^item> \<open>newWatcherErr\<close>: the error of \<open>fsnotify.NewWatcher()\<close>, \<open>None\<close> when it succeeds;
  \<^item> \<open>addErr regd p\<close>: the error of \<open>w.Add(p)\<close> when the paths \<open>regd\<close> are already
    registered, \<open>None\<close> when it succeeds;
  \<^item> \<open>files\<close>: the file system \<open>digest\<close> reads;
  \<^item> \<open>rangeOrder\<close>: decides the order in which \<open>range userPaths\<close> visits the keys of the
    map, which Go leaves unspecified (see \<open>range_keys\<close>).
\<close>

record env =
  getwd :: "string option"
  newWatcherErr :: "err option"
  addErr :: "string list \<Rightarrow> string \<Rightarrow> err option"
  files :: filesystem
  rangeOrder :: "string list"

text \<open>The five error returns of \<open>watch\<close>, with the values their messages are built from.\<close>

datatype werror =
    IgnoredPathsGetwdError
  | UnableToCreateWatcher err
  | UserPathsGetwdError
  | UnableToWatch string err
  | UnableToWatchRenameDir string err

text \<open>
  \<open>userPaths\<close> is a \<open>map[string][]byte\<close>. It is kept as the list of its entries in the
  order of insertion; a key is inserted once only, since the loop skips a path that is
  found in the map.

  The first loop of \<open>watch\<close>. An error return carries the watcher as \<open>w.Close()\<close> left it.
\<close>

type_synonym userPaths = "(string \<times> fingerprint) list"

fun watch_inputs ::
  "env \<Rightarrow> userIgnorer \<Rightarrow> string list \<Rightarrow> fswatcher \<Rightarrow> userPaths
     \<Rightarrow> (werror \<times> fswatcher) + (fswatcher \<times> userPaths)"
where
  "watch_inputs E u [] w userPaths = Inr (w, userPaths)"
| "watch_inputs E u (path # paths) w userPaths =
     (case filepath_Abs (getwd E) path of
        None \<Rightarrow> Inl (UserPathsGetwdError, w\<lparr>isClosed := True\<rparr>)
      | Some fullPath \<Rightarrow>
          (let found = (map_of userPaths fullPath \<noteq> None)
           in if found \<or> userIgnorer_IsIgnored (getwd E) u path then
                watch_inputs E u paths w userPaths
              else
                (case addErr E (added w) fullPath of
                   Some e \<Rightarrow> Inl (UnableToWatch path e, w\<lparr>isClosed := True\<rparr>)
                 | None \<Rightarrow>
                     (let d = fst (digest (files E) fullPath)
                      in watch_inputs E u paths (w\<lparr>added := added w @ [fullPath]\<rparr>)
                           (userPaths @ [(fullPath, d)])))))"

text \<open>
  The order of \<open>for fullPath, _ := range userPaths\<close>: the keys named by \<open>pref\<close> first, in
  the order of \<open>pref\<close>, then the remaining keys. Every order of the keys is \<open>range_keys\<close>
  of some \<open>pref\<close> (the order itself), so a statement for every \<open>pref\<close> is a statement for
  every order Go may choose.
\<close>

definition range_keys :: "string list \<Rightarrow> string list \<Rightarrow> string list" where
  "range_keys pref keys =
     filter (\<lambda>k. k \<in> set keys) (remdups pref) @ filter (\<lambda>k. k \<notin> set pref) keys"

text \<open>
  The ignorer handed to the dispatch loop. The second loop of \<open>watch\<close> fills its three
  sets (each a \<open>map[string]bool\<close> that only receives \<open>true\<close>).
\<close>

record smartIgnorer =
  includedHiddenFiles :: "string set"
  ui :: userIgnorer
  renameDirs :: "string set"
  renameChildren :: "string set"

fun watch_renames ::
  "env \<Rightarrow> userPaths \<Rightarrow> string list \<Rightarrow> fswatcher \<Rightarrow> smartIgnorer
     \<Rightarrow> (werror \<times> fswatcher) + (fswatcher \<times> smartIgnorer)"
where
  "watch_renames E userPaths [] w ig = Inr (w, ig)"
| "watch_renames E userPaths (fullPath # keys) w ig =
     (let baseName = filepath_Base fullPath;
          ig1 = (if strings_HasPrefix baseName ''.''
                 then ig\<lparr>includedHiddenFiles := insert fullPath (includedHiddenFiles ig)\<rparr>
                 else ig);
          dirPath = filepath_Dir fullPath;
          foundDir = (map_of userPaths dirPath \<noteq> None)
      in if \<not> foundDir \<and> dirPath \<noteq> [] then
           (let ig2 = ig1\<lparr>renameDirs := insert dirPath (renameDirs ig1),
                          renameChildren := insert fullPath (renameChildren ig1)\<rparr>
            in if dirPath \<notin> renameDirs ig1 then
                 (case addErr E (added w) dirPath of
                    Some e \<Rightarrow> Inl (UnableToWatchRenameDir fullPath e, w\<lparr>isClosed := True\<rparr>)
                  | None \<Rightarrow>
                      watch_renames E userPaths keys (w\<lparr>added := added w @ [dirPath]\<rparr>) ig2)
               else watch_renames E userPaths keys w ig2)
         else watch_renames E userPaths keys w ig1)"

text \<open>
  The outcome of \<open>watch\<close>: the returned pair (the map or the error), the watcher if
  \<open>fsnotify.NewWatcher\<close> created one, and the ignorer of the dispatch loop if
  \<open>go listenForEvents(w, cmdCh, ig)\<close> was executed.
\<close>

record outcome =
  ret :: "werror + (string \<rightharpoonup> fingerprint)"
  watcher :: "fswatcher option"
  dispatch :: "smartIgnorer option"

definition watch :: "env \<Rightarrow> string list \<Rightarrow> string list \<Rightarrow> outcome" where
  "watch E inputPaths ignoredPaths =
     (case createUserIgnorer (getwd E) ignoredPaths of
        None \<Rightarrow> \<lparr>ret = Inl IgnoredPathsGetwdError, watcher = None, dispatch = None\<rparr>
      | Some u \<Rightarrow>
          (case newWatcherErr E of
             Some e \<Rightarrow> \<lparr>ret = Inl (UnableToCreateWatcher e), watcher = None, dispatch = None\<rparr>
           | None \<Rightarrow>
               (case watch_inputs E u inputPaths \<lparr>added = [], isClosed = False\<rparr> [] of
                  Inl (e, w) \<Rightarrow> \<lparr>ret = Inl e, watcher = Some w, dispatch = None\<rparr>
                | Inr (w, userPaths) \<Rightarrow>
                    (case watch_renames E userPaths
                            (range_keys (rangeOrder E) (map fst userPaths)) w
                            \<lparr>includedHiddenFiles = {}, ui = u,
                             renameDirs = {}, renameChildren = {}\<rparr> of
                       Inl (e, w') \<Rightarrow> \<lparr>ret = Inl e, watcher = Some w', dispatch = None\<rparr>
                     | Inr (w', ig) \<Rightarrow>
                         \<lparr>ret = Inr (map_of userPaths), watcher = Some w',
                          dispatch = Some ig\<rparr>))))"

section \<open>A concrete environment\<close>

text \<open>
  The working directory is \<open>/home/u\<close>; every path can be registered but
  \<open>/nonexistent\<close>; \<open>/tmp/proj/file.txt\<close> is a file of three bytes and every other path is
  a directory; \<open>range\<close> visits the keys in the order of insertion.
\<close>

definition example_env :: env where
  "example_env =
     \<lparr>getwd = Some ''/home/u'',
      newWatcherErr = None,
      addErr = (\<lambda>regd p. if p = ''/nonexistent'' then Some ''no such file or directory'' else None),
      files = (\<lambda>p. if p = ''/tmp/proj/file.txt'' then Regular [1, 2, 3] None else Directory),
      rangeOrder = []\<rparr>"

(*THEOREMS*)
section \<open>Properties of the dispatch loop\<close>

lemma sends_append: "sends (xs @ ys) = sends xs @ sends ys"
  by (induction xs rule: sends.induct) auto

text \<open>
  The loop returns exactly when one of the received items is a closed events channel, a
  closed errors channel or a nil error.
\<close>

lemma listenForEvents_status:
  "snd (listenForEvents verbose ignorer clock n rs) =
     (if \<exists>r \<in> set rs. stops r then Returned else Waiting)"
  by (induction verbose ignorer clock n rs rule: listenForEvents.induct) (auto simp: Let_def)

text \<open>
  Claim C1, at the input where it fails: the first item the loop receives is the closed
  events channel. The loop returns, and it has not closed the output channel.
\<close>

theorem listenForEvents_events_closed_no_close:
  "listenForEvents False (\<lambda>p. False) (\<lambda>k. k) 0 [EventsClosed] = ([], Returned)"
  by simp

text \<open>
  Claim C6: of the raw events received before the loop returns, those whose path the
  ignorer flags are not sent at all, and each of the others is sent exactly once, in the
  order of receipt, wrapped with the clock reading taken when it is forwarded (the
  \<open>k\<close>-th forwarded event carries the \<open>k\<close>-th reading).
\<close>

theorem listenForEvents_forwards:
  "sends (fst (listenForEvents verbose ignorer clock n rs)) =
     stamp clock n (filter (\<lambda>ev. \<not> ignorer (Name ev)) (received rs))"
  by (induction verbose ignorer clock n rs rule: listenForEvents.induct)
     (auto simp: Let_def sends_append)

text \<open>
  Claim C9: two runs on the same received items that differ only in the verbose flag
  send the same items in the same order, and return or keep waiting alike.
\<close>

theorem listenForEvents_verbose_irrelevant:
  "sends (fst (listenForEvents True ignorer clock n rs)) =
     sends (fst (listenForEvents False ignorer clock n rs))
   \<and> snd (listenForEvents True ignorer clock n rs) =
     snd (listenForEvents False ignorer clock n rs)"
proof
  have "sends (fst (listenForEvents b ignorer clock n rs)) =
          stamp clock n (filter (\<lambda>ev. \<not> ignorer (Name ev)) (received rs))" for b
    by (induction b ignorer clock n rs rule: listenForEvents.induct)
       (auto simp: Let_def sends_append)
  then show "sends (fst (listenForEvents True ignorer clock n rs)) =
     sends (fst (listenForEvents False ignorer clock n rs))"
    by simp
  show "snd (listenForEvents True ignorer clock n rs) =
     snd (listenForEvents False ignorer clock n rs)"
    by (simp only: listenForEvents_status)
qed

text \<open>
  Claim C10: wherever \<open>close(cmdCh)\<close> stands among the loop's actions, it is the last
  one, no earlier action is a close, and the loop has returned: nothing is sent on the
  channel after it is closed, and it is closed at most once.
\<close>

theorem listenForEvents_close_is_last:
  "fst (listenForEvents verbose ignorer clock n rs) = pre @ CloseCmdCh # post \<Longrightarrow>
     post = [] \<and> CloseCmdCh \<notin> set pre
     \<and> snd (listenForEvents verbose ignorer clock n rs) = Returned"
proof (induction verbose ignorer clock n rs arbitrary: pre rule: listenForEvents.induct)
  case (2 verbose ignorer clock n ev rs)
  show ?case
  proof (cases "ignorer (Name ev)")
    case True
    with 2 show ?thesis by simp
  next
    case False
    let ?r = "listenForEvents verbose ignorer clock (Suc n) rs"
    let ?hd = "(if verbose then [LogUnignored ev] else [])
                 @ [Send \<lparr>Time = clock n, Event = ev\<rparr>]"
    from False "2.prems" have eq: "?hd @ fst ?r = pre @ CloseCmdCh # post"
      by (simp add: Let_def)
    have nocl: "CloseCmdCh \<notin> set ?hd" by simp
    from eq nocl obtain pre' where p: "pre = ?hd @ pre'"
      and f: "fst ?r = pre' @ CloseCmdCh # post"
      by (auto simp: append_eq_append_conv2 append_eq_Cons_conv Cons_eq_append_conv
          split: if_splits)
    from "2.IH"(2)[OF False f] p nocl False show ?thesis
      by (auto simp: Let_def)
  qed
next
  case (5 verbose ignorer clock n e rs)
  let ?r = "listenForEvents verbose ignorer clock n rs"
  from "5.prems" obtain pre' where p: "pre = LogWatchError e # pre'"
    and f: "fst ?r = pre' @ CloseCmdCh # post"
    by (auto simp: Let_def Cons_eq_append_conv)
  from "5.IH"[OF f] p show ?case by (auto simp: Let_def)
qed (auto simp: Cons_eq_append_conv)

theorem listenForEvents_close_is_last_witness:
  "fst (listenForEvents True (\<lambda>p. p = ''/tmp/x'') (\<lambda>k. 100 + k) 0
        [RecvEvent \<lparr>Name = ''/tmp/a'', Op = 2\<rparr>, RecvEvent \<lparr>Name = ''/tmp/x'', Op = 2\<rparr>,
         RecvError (Some ''overflow''), ErrorsClosed, RecvEvent \<lparr>Name = ''/tmp/b'', Op = 1\<rparr>])
     = [LogUnignored \<lparr>Name = ''/tmp/a'', Op = 2\<rparr>,
        Send \<lparr>Time = 100, Event = \<lparr>Name = ''/tmp/a'', Op = 2\<rparr>\<rparr>,
        LogWatchError ''overflow''] @ CloseCmdCh # []
   \<and> CloseCmdCh \<notin> set [LogUnignored \<lparr>Name = ''/tmp/a'', Op = 2\<rparr>,
        Send \<lparr>Time = 100, Event = \<lparr>Name = ''/tmp/a'', Op = 2\<rparr>\<rparr>,
        LogWatchError ''overflow'']
   \<and> snd (listenForEvents True (\<lambda>p. p = ''/tmp/x'') (\<lambda>k. 100 + k) 0
        [RecvEvent \<lparr>Name = ''/tmp/a'', Op = 2\<rparr>, RecvEvent \<lparr>Name = ''/tmp/x'', Op = 2\<rparr>,
         RecvError (Some ''overflow''), ErrorsClosed, RecvEvent \<lparr>Name = ''/tmp/b'', Op = 1\<rparr>])
     = Returned"
proof -
  have run: "fst (listenForEvents True (\<lambda>p. p = ''/tmp/x'') (\<lambda>k. 100 + k) 0
        [RecvEvent \<lparr>Name = ''/tmp/a'', Op = 2\<rparr>, RecvEvent \<lparr>Name = ''/tmp/x'', Op = 2\<rparr>,
         RecvError (Some ''overflow''), ErrorsClosed, RecvEvent \<lparr>Name = ''/tmp/b'', Op = 1\<rparr>])
     = [LogUnignored \<lparr>Name = ''/tmp/a'', Op = 2\<rparr>,
        Send \<lparr>Time = 100, Event = \<lparr>Name = ''/tmp/a'', Op = 2\<rparr>\<rparr>,
        LogWatchError ''overflow''] @ CloseCmdCh # []"
    by simp
  from listenForEvents_close_is_last [OF run] run show ?thesis
    by blast
qed

section \<open>Properties of the digest engine\<close>

text \<open>
  Claim C4: for a regular file that has a byte left unread after the cap of 20 MiB (its
  content is longer than the cap), and for a directory, \<open>digest\<close> returns a nil
  fingerprint and a nil error.
\<close>

theorem digest_too_large_or_directory:
  "fs path = Directory \<or>
   (\<exists>bytes term. fs path = Regular bytes term \<and> maxHashedFileSize < length bytes)
   \<Longrightarrow> digest fs path = (None, None)"
  by (auto simp: digest_def copy_limited_def)

theorem digest_too_large_or_directory_witness:
  "digest (\<lambda>p. if p = ''/tmp/big'' then Regular (replicate 20971521 0) None else Directory)
      ''/tmp/big'' = (None, None)
   \<and> digest (\<lambda>p. if p = ''/tmp/big'' then Regular (replicate 20971521 0) None else Directory)
      ''/tmp'' = (None, None)"
proof -
  let ?fs = "\<lambda>p. if p = ''/tmp/big'' then Regular (replicate 20971521 0) None else Directory"
  have big: "?fs ''/tmp/big'' = Directory \<or>
    (\<exists>bytes term. ?fs ''/tmp/big'' = Regular bytes term \<and> maxHashedFileSize < length bytes)"
    by (simp add: maxHashedFileSize_def)
  have dir: "?fs ''/tmp'' = Directory \<or>
    (\<exists>bytes term. ?fs ''/tmp'' = Regular bytes term \<and> maxHashedFileSize < length bytes)"
    by simp
  from digest_too_large_or_directory [of ?fs, OF big] digest_too_large_or_directory [of ?fs, OF dir]
  show ?thesis by blast
qed

text \<open>
  Claim C8: for a regular file that reads without error and whose content is at most the
  cap, \<open>digest\<close> returns the SHA-256 hash of the whole content and no error; and when
  \<open>digest\<close> returns a nil fingerprint with a nil error, the path is a directory or a file
  longer than the cap.
\<close>

theorem digest_within_cap:
  "(fs path = Regular bytes None \<and> length bytes \<le> maxHashedFileSize
      \<longrightarrow> digest fs path = (Some (sha256 bytes), None))
   \<and> (digest fs path = (None, None)
      \<longrightarrow> fs path = Directory
          \<or> (\<exists>bs term. fs path = Regular bs term \<and> maxHashedFileSize < length bs))"
  by (auto simp: digest_def copy_limited_def not_le le_Suc_eq split: fnode.splits option.splits if_splits)

theorem digest_within_cap_witness:
  "digest (\<lambda>p. if p = ''/tmp/a'' then Regular [1, 2, 3] None
                else if p = ''/tmp/full'' then Regular (replicate 20971520 7) None
                else Directory) ''/tmp/a'' = (Some (sha256 [1, 2, 3]), None)
   \<and> digest (\<lambda>p. if p = ''/tmp/a'' then Regular [1, 2, 3] None
                else if p = ''/tmp/full'' then Regular (replicate 20971520 7) None
                else Directory) ''/tmp/full'' = (Some (sha256 (replicate 20971520 7)), None)
   \<and> digest (\<lambda>p. if p = ''/tmp/a'' then Regular [1, 2, 3] None
                else if p = ''/tmp/full'' then Regular (replicate 20971520 7) None
                else Directory) ''/tmp'' = (None, None)
   \<and> (\<lambda>p. if p = ''/tmp/a'' then Regular [1, 2, 3] None
                else if p = ''/tmp/full'' then Regular (replicate 20971520 7) None
                else Directory) ''/tmp'' = Directory"
proof -
  let ?fs = "\<lambda>p. if p = ''/tmp/a'' then Regular [1, 2, 3] None
                else if p = ''/tmp/full'' then Regular (replicate 20971520 7) None
                else Directory"
  have a: "?fs ''/tmp/a'' = Regular [1, 2, 3] None \<and> length [1, 2, 3 :: byte] \<le> maxHashedFileSize"
    by (simp add: maxHashedFileSize_def)
  have f: "?fs ''/tmp/full'' = Regular (replicate 20971520 7) None
      \<and> length (replicate 20971520 (7 :: byte)) \<le> maxHashedFileSize"
    by (simp add: maxHashedFileSize_def)
  have d: "digest ?fs ''/tmp'' = (None, None)"
    by (simp add: digest_def)
  from digest_within_cap [of ?fs "''/tmp/a''" "[1, 2, 3]"] a
  have 1: "digest ?fs ''/tmp/a'' = (Some (sha256 [1, 2, 3]), None)" by blast
  from digest_within_cap [of ?fs "''/tmp/full''" "replicate 20971520 7"] f
  have 2: "digest ?fs ''/tmp/full'' = (Some (sha256 (replicate 20971520 7)), None)" by blast
  from digest_within_cap [of ?fs "''/tmp''"] d
  have 3: "?fs ''/tmp'' = Directory
          \<or> (\<exists>bs term. ?fs ''/tmp'' = Regular bs term \<and> maxHashedFileSize < length bs)" by blast
  then have 4: "?fs ''/tmp'' = Directory" by simp
  from 1 2 d 4 show ?thesis by blast
qed

section \<open>Properties of the watch set builder\<close>

lemma watch_inputs_error_closed:
  "watch_inputs E u paths w up = Inl (e, w') \<Longrightarrow> isClosed w'"
  by (induction E u paths w up rule: watch_inputs.induct)
     (auto simp: Let_def split: option.splits if_splits)

lemma watch_renames_error_closed:
  "watch_renames E up keys w ig = Inl (e, w') \<Longrightarrow> isClosed w'"
  by (induction E up keys w ig rule: watch_renames.induct)
     (auto simp: Let_def split: option.splits if_splits)

lemma filepath_Clean_nonempty: "filepath_Clean p \<noteq> []"
  by (simp add: filepath_Clean_def Let_def)

lemma filepath_Dir_nonempty: "filepath_Dir p \<noteq> []"
  by (simp add: filepath_Dir_def filepath_Clean_nonempty)

lemma watch_inputs_keys:
  "watch_inputs E u paths w up = Inr (w', up') \<Longrightarrow>
   added w = map fst up \<Longrightarrow> distinct (map fst up) \<Longrightarrow>
     added w' = map fst up' \<and> distinct (map fst up')"
proof (induction E u paths w up rule: watch_inputs.induct)
  case (1 E u w userPaths)
  then show ?case by simp
next
  case (2 E u path paths w userPaths)
  then show ?case
    by (auto simp: Let_def map_of_eq_None_iff split: option.splits if_splits)
qed

lemma watch_renames_sets:
  "watch_renames E up keys w ig = Inr (w', ig') \<Longrightarrow>
     renameChildren ig' = renameChildren ig \<union> {p \<in> set keys. map_of up (filepath_Dir p) = None}
   \<and> renameDirs ig' = renameDirs ig \<union> filepath_Dir ` {p \<in> set keys. map_of up (filepath_Dir p) = None}
   \<and> ui ig' = ui ig"
proof (induction keys arbitrary: w ig)
  case Nil
  then show ?case by simp
next
  case (Cons p keys)
  from Cons.prems show ?case
    by (auto simp: Let_def filepath_Dir_nonempty split: option.splits if_splits
        dest!: Cons.IH)
qed

lemma watch_renames_added:
  "watch_renames E up keys w ig = Inr (w', ig') \<Longrightarrow>
   distinct (added w) \<Longrightarrow> set (added w) = fst ` set up \<union> renameDirs ig \<Longrightarrow>
     distinct (added w') \<and> set (added w') = fst ` set up \<union> renameDirs ig'"
proof (induction keys arbitrary: w ig)
  case Nil
  then show ?case by simp
next
  case (Cons p keys)
  let ?d = "filepath_Dir p"
  let ?ig1 = "if strings_HasPrefix (filepath_Base p) ''.''
              then ig\<lparr>includedHiddenFiles := insert p (includedHiddenFiles ig)\<rparr> else ig"
  let ?ig2 = "?ig1\<lparr>renameDirs := insert ?d (renameDirs ?ig1),
                     renameChildren := insert p (renameChildren ?ig1)\<rparr>"
  have rd1: "renameDirs ?ig1 = renameDirs ig" by simp
  show ?case
  proof (cases "map_of up ?d = None")
    case False
    with Cons.prems(1) have "watch_renames E up keys w ?ig1 = Inr (w', ig')"
      by (simp add: Let_def)
    from Cons.IH [OF this Cons.prems(2)] Cons.prems(3) rd1 show ?thesis by simp
  next
    case True
    note notkey = this
    show ?thesis
    proof (cases "?d \<in> renameDirs ig")
      case True
      with notkey Cons.prems(1) have "watch_renames E up keys w ?ig2 = Inr (w', ig')"
        by (simp add: Let_def filepath_Dir_nonempty rd1)
      moreover from True Cons.prems(3) have "set (added w) = fst ` set up \<union> renameDirs ?ig2"
        by auto
      ultimately show ?thesis using Cons.IH Cons.prems(2) by blast
    next
      case False
      with notkey Cons.prems(1) have ok: "addErr E (added w) ?d = None"
        and run: "watch_renames E up keys (w\<lparr>added := added w @ [?d]\<rparr>) ?ig2 = Inr (w', ig')"
        by (auto simp: Let_def filepath_Dir_nonempty rd1 split: option.splits)
      from notkey have "?d \<notin> fst ` set up" by (simp add: map_of_eq_None_iff)
      with False Cons.prems(2,3) have
        "distinct (added (w\<lparr>added := added w @ [?d]\<rparr>))"
        "set (added (w\<lparr>added := added w @ [?d]\<rparr>)) = fst ` set up \<union> renameDirs ?ig2"
        by auto
      with Cons.IH [OF run] show ?thesis by blast
    qed
  qed
qed

lemma set_range_keys: "set (range_keys pref keys) = set keys"
  by (auto simp: range_keys_def)


lemma count_list_distinct: "distinct xs \<Longrightarrow> x \<in> set xs \<Longrightarrow> count_list xs x = 1"
  by (induction xs) auto

lemma watch_success:
  assumes "ret (watch E inputPaths ignoredPaths) = Inr m"
  obtains u w1 up w ig where
    "createUserIgnorer (getwd E) ignoredPaths = Some u"
    "watch_inputs E u inputPaths \<lparr>added = [], isClosed = False\<rparr> [] = Inr (w1, up)"
    "watch_renames E up (range_keys (rangeOrder E) (map fst up)) w1
       \<lparr>includedHiddenFiles = {}, ui = u, renameDirs = {}, renameChildren = {}\<rparr> = Inr (w, ig)"
    "m = map_of up"
    "watcher (watch E inputPaths ignoredPaths) = Some w"
    "dispatch (watch E inputPaths ignoredPaths) = Some ig"
  using assms
  by (auto simp: watch_def split: option.splits sum.splits prod.splits)

text \<open>Two runs in the concrete environment, evaluated.\<close>

lemma example_run_unable_to_watch:
  "watch example_env [''/tmp/proj/file.txt'', ''/nonexistent''] [] =
     \<lparr>ret = Inl (UnableToWatch ''/nonexistent'' ''no such file or directory''),
      watcher = Some \<lparr>added = [''/tmp/proj/file.txt''], isClosed = True\<rparr>,
      dispatch = None\<rparr>"
  by (simp add: watch_def example_env_def createUserIgnorer_def
      filepath_Abs_def filepath_IsAbs_def filepath_Clean_def IsPathSeparator_def Let_def
      userIgnorer_IsIgnored_def strings_HasPrefix_def digest_def copy_limited_def
      maxHashedFileSize_def)

lemma example_run_ok:
  "watch example_env
     [''/tmp/proj/file.txt'', ''b.txt'', ''/tmp/proj/./file.txt'', ''/tmp/proj/sub/c'', ''/tmp/proj/sub/''] [] =
     \<lparr>ret = Inr (map_of [(''/tmp/proj/file.txt'', Some (sha256 [1, 2, 3])), (''/home/u/b.txt'', None),
                          (''/tmp/proj/sub/c'', None), (''/tmp/proj/sub'', None)]),
      watcher = Some \<lparr>added = [''/tmp/proj/file.txt'', ''/home/u/b.txt'', ''/tmp/proj/sub/c'',
                               ''/tmp/proj/sub'', ''/tmp/proj'', ''/home/u''],
                      isClosed = False\<rparr>,
      dispatch = Some \<lparr>includedHiddenFiles = {}, ui = \<lparr>ignored = {}, ignoredDirs = []\<rparr>,
                       renameDirs = {''/tmp/proj'', ''/home/u''},
                       renameChildren = {''/tmp/proj/file.txt'', ''/home/u/b.txt'', ''/tmp/proj/sub''}\<rparr>\<rparr>"
  by (simp add: watch_def example_env_def createUserIgnorer_def range_keys_def
      filepath_Abs_def filepath_IsAbs_def filepath_Clean_def filepath_Dir_def filepath_Base_def
      IsPathSeparator_def Let_def
      userIgnorer_IsIgnored_def strings_HasPrefix_def digest_def copy_limited_def
      maxHashedFileSize_def insert_commute)


text \<open>
  Claim C7: when \<open>watch\<close> returns an error and the watcher had been created, the watcher
  has been closed and the dispatch loop was not started.
\<close>

theorem watch_error_closes_watcher:
  "ret (watch E inputPaths ignoredPaths) = Inl e \<Longrightarrow>
   watcher (watch E inputPaths ignoredPaths) = Some w \<Longrightarrow>
     isClosed w \<and> dispatch (watch E inputPaths ignoredPaths) = None"
  by (auto simp: watch_def split: option.splits sum.splits prod.splits
      dest: watch_inputs_error_closed watch_renames_error_closed)

theorem watch_error_closes_watcher_witness:
  "ret (watch example_env [''/tmp/proj/file.txt'', ''/nonexistent''] []) =
     Inl (UnableToWatch ''/nonexistent'' ''no such file or directory'')
   \<and> watcher (watch example_env [''/tmp/proj/file.txt'', ''/nonexistent''] []) =
     Some \<lparr>added = [''/tmp/proj/file.txt''], isClosed = True\<rparr>
   \<and> isClosed \<lparr>added = [''/tmp/proj/file.txt''], isClosed = True\<rparr>
   \<and> dispatch (watch example_env [''/tmp/proj/file.txt'', ''/nonexistent''] []) = None"
proof -
  have r: "ret (watch example_env [''/tmp/proj/file.txt'', ''/nonexistent''] []) =
     Inl (UnableToWatch ''/nonexistent'' ''no such file or directory'')"
    by (simp add: example_run_unable_to_watch)
  have w: "watcher (watch example_env [''/tmp/proj/file.txt'', ''/nonexistent''] []) =
     Some \<lparr>added = [''/tmp/proj/file.txt''], isClosed = True\<rparr>"
    by (simp add: example_run_unable_to_watch)
  from watch_error_closes_watcher [OF r w] r w show ?thesis
    by blast
qed

text \<open>
  Claim C3: when \<open>watch\<close> succeeds, a path is in \<open>renameChildren\<close> exactly when it is a key
  of the returned map whose parent directory is not a key; the parent directory of every
  such path is in \<open>renameDirs\<close>; and every directory of \<open>renameDirs\<close> is registered
  with the watcher once (no path at all is registered twice).
\<close>

theorem watch_rename_tracking:
  assumes "ret (watch E inputPaths ignoredPaths) = Inr m"
  shows "\<exists>ig w. dispatch (watch E inputPaths ignoredPaths) = Some ig
           \<and> watcher (watch E inputPaths ignoredPaths) = Some w
           \<and> (\<forall>p. p \<in> renameChildren ig \<longleftrightarrow> p \<in> dom m \<and> filepath_Dir p \<notin> dom m)
           \<and> (\<forall>p \<in> renameChildren ig. filepath_Dir p \<in> renameDirs ig)
           \<and> (\<forall>d \<in> renameDirs ig. count_list (added w) d = 1)
           \<and> (\<forall>d. count_list (added w) d \<le> 1)"
proof -
  from assms obtain u w1 up w ig where
    inputs: "watch_inputs E u inputPaths \<lparr>added = [], isClosed = False\<rparr> [] = Inr (w1, up)"
    and renames: "watch_renames E up (range_keys (rangeOrder E) (map fst up)) w1
       \<lparr>includedHiddenFiles = {}, ui = u, renameDirs = {}, renameChildren = {}\<rparr> = Inr (w, ig)"
    and m: "m = map_of up"
    and w: "watcher (watch E inputPaths ignoredPaths) = Some w"
    and ig: "dispatch (watch E inputPaths ignoredPaths) = Some ig"
    by (rule watch_success)
  have dom: "dom m = fst ` set up" by (simp add: m dom_map_of_conv_image_fst)
  from watch_inputs_keys [OF inputs] have w1: "added w1 = map fst up" "distinct (map fst up)"
    by simp_all
  from watch_renames_sets [OF renames]
  have ch: "renameChildren ig = {p \<in> fst ` set up. map_of up (filepath_Dir p) = None}"
    and ds: "renameDirs ig = filepath_Dir ` {p \<in> fst ` set up. map_of up (filepath_Dir p) = None}"
    by (simp_all add: set_range_keys)
  from watch_renames_added [OF renames] w1
  have ad: "distinct (added w)" "set (added w) = fst ` set up \<union> renameDirs ig"
    by simp_all
  have 1: "\<forall>p. p \<in> renameChildren ig \<longleftrightarrow> p \<in> dom m \<and> filepath_Dir p \<notin> dom m"
    by (auto simp: ch dom map_of_eq_None_iff)
  have 2: "\<forall>p \<in> renameChildren ig. filepath_Dir p \<in> renameDirs ig"
    by (auto simp: ch ds)
  have 3: "\<forall>d \<in> renameDirs ig. count_list (added w) d = 1"
  proof
    fix d assume "d \<in> renameDirs ig"
    with ad(2) have "d \<in> set (added w)" by simp
    with ad(1) show "count_list (added w) d = 1" by (rule count_list_distinct)
  qed
  have 4: "\<forall>d. count_list (added w) d \<le> 1"
  proof
    fix d show "count_list (added w) d \<le> 1"
      using ad(1) count_list_distinct [of "added w" d]
      by (cases "d \<in> set (added w)") (simp_all add: count_list_0_iff)
  qed
  from w ig 1 2 3 4 show ?thesis by blast
qed

theorem watch_rename_tracking_witness:
  "ret (watch example_env [''/tmp/proj/file.txt'', ''b.txt'', ''/tmp/proj/./file.txt'', ''/tmp/proj/sub/c'', ''/tmp/proj/sub/''] []) = Inr (map_of [(''/tmp/proj/file.txt'', Some (sha256 [1, 2, 3])), (''/home/u/b.txt'', None),
                (''/tmp/proj/sub/c'', None), (''/tmp/proj/sub'', None)])
   \<and> (\<exists>ig w. dispatch (watch example_env [''/tmp/proj/file.txt'', ''b.txt'', ''/tmp/proj/./file.txt'', ''/tmp/proj/sub/c'', ''/tmp/proj/sub/''] []) = Some ig
           \<and> watcher (watch example_env [''/tmp/proj/file.txt'', ''b.txt'', ''/tmp/proj/./file.txt'', ''/tmp/proj/sub/c'', ''/tmp/proj/sub/''] []) = Some w
           \<and> (\<forall>p. p \<in> renameChildren ig \<longleftrightarrow> p \<in> dom (map_of [(''/tmp/proj/file.txt'', Some (sha256 [1, 2, 3])), (''/home/u/b.txt'', None),
                (''/tmp/proj/sub/c'', None), (''/tmp/proj/sub'', None)]) \<and> filepath_Dir p \<notin> dom (map_of [(''/tmp/proj/file.txt'', Some (sha256 [1, 2, 3])), (''/home/u/b.txt'', None),
                (''/tmp/proj/sub/c'', None), (''/tmp/proj/sub'', None)]))
           \<and> (\<forall>p \<in> renameChildren ig. filepath_Dir p \<in> renameDirs ig)
           \<and> (\<forall>d \<in> renameDirs ig. count_list (added w) d = 1)
           \<and> (\<forall>d. count_list (added w) d \<le> 1))"
proof -
  have r: "ret (watch example_env [''/tmp/proj/file.txt'', ''b.txt'', ''/tmp/proj/./file.txt'', ''/tmp/proj/sub/c'', ''/tmp/proj/sub/''] []) = Inr (map_of [(''/tmp/proj/file.txt'', Some (sha256 [1, 2, 3])), (''/home/u/b.txt'', None),
                (''/tmp/proj/sub/c'', None), (''/tmp/proj/sub'', None)])"
    by (simp add: example_run_ok)
  from r watch_rename_tracking [OF r] show ?thesis
    by (rule conjI)
qed

end
